theory Spec2Isabelle
  imports Complex_Main
begin

section \<open>Thermocouple conversion by table interpolation (typek.py)\<close>

text \<open>
  A shallow embedding of \<^verbatim>\<open>typek.py\<close>: the class \<^verbatim>\<open>Interpolate\<close>, the
  exception \<^verbatim>\<open>RangeError\<close>, the mixin \<^verbatim>\<open>ThermocoupleMixin\<close> and the
  constants of \<^verbatim>\<open>TypeK\<close>.

  Python numbers are modelled as mathematical numbers: an \<^verbatim>\<open>int\<close> is an \<^typ>\<open>int\<close>
  and a \<^verbatim>\<open>float\<close> is a \<^typ>\<open>real\<close>, so every arithmetic operation is exact and the
  rounding of IEEE doubles is not part of the model. Every exception the code can raise
  is a value: a function returns \<open>Inl e\<close> where the Python raises \<open>e\<close>.
\<close>

subsection \<open>Python primitives\<close>

text \<open>
  The message of a \<^verbatim>\<open>RangeError\<close> is built by
  \<^verbatim>\<open>'{}mV out of range.'.format(v)\<close>. It is kept as the list of its parts, the
  formatted value and the literal text, so that the conversion of a number to its decimal
  text does not have to be modelled.
\<close>

datatype msg_part = Val real | Lit string

datatype error = RangeError "msg_part list" | IndexError | ZeroDivisionError

definition bind_err :: "error + 'a \<Rightarrow> ('a \<Rightarrow> error + 'b) \<Rightarrow> error + 'b" where
  "bind_err m f = (case m of Inl e \<Rightarrow> Inl e | Inr v \<Rightarrow> f v)"

definition py_int :: "real \<Rightarrow> int" where
  \<comment> \<open>\<^verbatim>\<open>int(r)\<close>: truncation towards zero.\<close>
  "py_int r = (if 0 \<le> r then \<lfloor>r\<rfloor> else \<lceil>r\<rceil>)"

definition py_floordiv :: "real \<Rightarrow> real \<Rightarrow> error + real" where
  \<comment> \<open>\<^verbatim>\<open>a // b\<close>: the floor of the quotient; a zero divisor raises.\<close>
  "py_floordiv a b = (if b = 0 then Inl ZeroDivisionError else Inr (of_int \<lfloor>a / b\<rfloor>))"

definition py_mod :: "real \<Rightarrow> real \<Rightarrow> error + real" where
  \<comment> \<open>\<^verbatim>\<open>a % b\<close>: the remainder of the floor division; it has the sign of \<open>b\<close>.\<close>
  "py_mod a b = (if b = 0 then Inl ZeroDivisionError else Inr (a - b * of_int \<lfloor>a / b\<rfloor>))"

definition py_truediv :: "real \<Rightarrow> real \<Rightarrow> error + real" where
  \<comment> \<open>\<^verbatim>\<open>a / b\<close> on floats.\<close>
  "py_truediv a b = (if b = 0 then Inl ZeroDivisionError else Inr (a / b))"

definition py_getitem :: "'a list \<Rightarrow> int \<Rightarrow> error + 'a" where
  \<comment> \<open>\<^verbatim>\<open>xs[i]\<close>: the index \<open>-k\<close> reads the \<open>k\<close>-th entry from the end.\<close>
  "py_getitem xs i =
     (if 0 \<le> i \<and> i < int (length xs) then Inr (xs ! nat i)
      else if - int (length xs) \<le> i \<and> i < 0 then Inr (xs ! nat (i + int (length xs)))
      else Inl IndexError)"

definition py_range :: "int \<Rightarrow> int \<Rightarrow> int \<Rightarrow> int list" where
  \<comment> \<open>\<^verbatim>\<open>list(range(start, stop, step))\<close> for a positive step.\<close>
  "py_range start stop step =
     map (\<lambda>k. start + int k * step) [0 ..< nat ((stop - start + step - 1) div step)]"

text \<open>
  \<^verbatim>\<open>bisect.bisect\<close> of the standard library (\<^verbatim>\<open>bisect_right\<close>) with its default
  bounds \<^verbatim>\<open>lo = 0\<close>, \<^verbatim>\<open>hi = len(a)\<close>:
  \<^verbatim>\<open>while lo < hi: mid = (lo + hi) // 2; if x < a[mid]: hi = mid else: lo = mid + 1\<close>.
\<close>

function bisect_loop :: "real list \<Rightarrow> real \<Rightarrow> nat \<Rightarrow> nat \<Rightarrow> nat" where
  "bisect_loop a x lo hi =
     (if lo < hi
      then (let mid = (lo + hi) div 2
            in if x < a ! mid then bisect_loop a x lo mid else bisect_loop a x (mid + 1) hi)
      else lo)"
  by pat_completeness auto
termination
  by (relation "measure (\<lambda>(a, x, lo, hi). hi - lo)") auto

definition bisect :: "real list \<Rightarrow> real \<Rightarrow> nat" where
  "bisect a x = bisect_loop a x 0 (length a)"

subsection \<open>class Interpolate\<close>

record Interpolate =
  x_interval :: int
  x_array :: "real list"
  y_array :: "real list"

definition Interpolate_init :: "real \<Rightarrow> real list \<Rightarrow> real list \<Rightarrow> Interpolate" where
  "Interpolate_init iv xs ys = \<lparr>x_interval = py_int iv, x_array = xs, y_array = ys\<rparr>"

definition from_x_idx :: "Interpolate \<Rightarrow> real \<Rightarrow> error + int" where
  \<comment> \<open>\<^verbatim>\<open>idx = int(x_value//self.x_interval+28)\<close>\<close>
  "from_x_idx ip x_value =
     bind_err (py_floordiv x_value (of_int (x_interval ip))) (\<lambda>q. Inr (py_int (q + 28)))"

definition from_x :: "Interpolate \<Rightarrow> real \<Rightarrow> error + real" where
  "from_x ip x_value =
     bind_err (from_x_idx ip x_value) (\<lambda>idx.
     bind_err (py_mod x_value 10) (\<lambda>x.
     bind_err (py_getitem (y_array ip) (idx - 1)) (\<lambda>y1.
     bind_err (py_getitem (y_array ip) idx) (\<lambda>y2.
     bind_err (py_truediv (y2 - y1) (of_int (x_interval ip))) (\<lambda>slope.
     Inr (slope * x + y1))))))"

definition from_y_idx :: "Interpolate \<Rightarrow> real \<Rightarrow> int" where
  \<comment> \<open>\<^verbatim>\<open>idx = bisect(self.y_array, y_value)\<close>\<close>
  "from_y_idx ip y_value = int (bisect (y_array ip) y_value)"

definition from_y :: "Interpolate \<Rightarrow> real \<Rightarrow> error + real" where
  "from_y ip y_value =
     (let idx = from_y_idx ip y_value in
      bind_err (py_getitem (x_array ip) (idx - 1)) (\<lambda>offset.
      bind_err (py_getitem (y_array ip) (idx - 1)) (\<lambda>y1.
      bind_err (py_getitem (y_array ip) idx) (\<lambda>y2.
      bind_err (py_truediv (of_int (x_interval ip)) (y2 - y1)) (\<lambda>slope.
      Inr (slope * (y_value - y1) + offset))))))"

subsection \<open>class ThermocoupleMixin\<close>

text \<open>
  The class attributes a thermocouple type supplies. The attribute \<^verbatim>\<open>interp\<close>, set once
  by \<^verbatim>\<open>__init__\<close> from three of them and never changed, is a function of the record.
\<close>

record Thermocouple =
  scale :: string
  degrees_interval :: real
  min_degrees :: real
  max_degrees :: real
  min_mv :: real
  max_mv :: real
  degrees :: "real list"
  millivolts :: "real list"

definition interp :: "Thermocouple \<Rightarrow> Interpolate" where
  "interp tc = Interpolate_init (degrees_interval tc) (degrees tc) (millivolts tc)"

definition out_of_range :: "real \<Rightarrow> error" where
  \<comment> \<open>\<^verbatim>\<open>RangeError('{}mV out of range.'.format(v))\<close>\<close>
  "out_of_range v = RangeError [Val v, Lit ''mV out of range.'']"

definition degs_to_mv :: "Thermocouple \<Rightarrow> real \<Rightarrow> error + real" where
  "degs_to_mv tc degs =
     (if \<not> (min_degrees tc \<le> degs \<and> degs < max_degrees tc)
      then Inl (out_of_range degs)
      else from_x (interp tc) degs)"

definition mv_to_degs :: "Thermocouple \<Rightarrow> real \<Rightarrow> error + real" where
  "mv_to_degs tc mv =
     (if \<not> (min_mv tc \<le> mv \<and> mv < max_mv tc)
      then Inl (out_of_range mv)
      else from_y (interp tc) mv)"

definition temperature :: "Thermocouple \<Rightarrow> real \<Rightarrow> real \<Rightarrow> error + real" where
  "temperature tc reference_temperature thermocouple_millivolts =
     bind_err (degs_to_mv tc reference_temperature) (\<lambda>mv.
     mv_to_degs tc (mv + thermocouple_millivolts))"

subsection \<open>class TypeK\<close>

definition TypeK_millivolts :: "real list" where
  "TypeK_millivolts = [
    -6.458, -6.441, -6.404, -6.344, -6.262, -6.158, -6.035, -5.891, -5.730, -5.550,
    -5.354, -5.141, -4.913, -4.669, -4.411, -4.138, -3.852, -3.554, -3.243, -2.920,
    -2.587, -2.243, -1.889, -1.527, -1.156, -0.778, -0.392, 0.000, 0.397, 0.798, 1.203,
    1.612, 2.023, 2.436, 2.851, 3.267, 3.682, 4.096, 4.509, 4.920, 5.328, 5.735, 6.138,
    6.540, 6.941, 7.340, 7.739, 8.138, 8.539, 8.940, 9.343, 9.747, 10.153, 10.561,
    10.971, 11.382, 11.795, 12.209, 12.624, 13.040, 13.457, 13.874, 14.293, 14.713,
    15.133, 15.554, 15.975, 16.397, 16.820, 17.243, 17.667, 18.091, 18.516, 18.941,
    19.366, 19.792, 20.218, 20.644, 21.071, 21.497, 21.924, 22.350, 22.776, 23.203,
    23.629, 24.055, 24.480, 24.905, 25.330, 25.755, 26.179, 26.602, 27.025, 27.447,
    27.869, 28.289, 28.710, 29.129, 29.548, 29.965, 30.382, 30.798, 31.213, 31.628,
    32.041, 32.453, 32.865, 33.275, 33.685, 34.093, 34.501, 34.908, 35.313, 35.718,
    36.121, 36.524, 36.925, 37.326, 37.725, 38.124, 38.522, 38.918, 39.314, 39.708,
    40.101, 40.494, 40.885, 41.276, 41.665, 42.053, 42.440, 42.826, 43.211, 43.595,
    43.978, 44.359, 44.740, 45.119, 45.497, 45.873, 46.249, 46.623, 46.995, 47.367,
    47.737, 48.105, 48.473, 48.838, 49.202, 49.565, 49.926, 50.286, 50.644, 51.000,
    51.355, 51.708, 52.060, 52.410, 52.759, 53.106, 53.451, 53.795, 54.138, 54.479,
    54.819]"

definition TypeK :: Thermocouple where
  "TypeK = \<lparr>scale = ''Celsius'', degrees_interval = 10,
     min_degrees = -270, max_degrees = 1370, min_mv = -6.458, max_mv = 54.818,
     degrees = map of_int (py_range (-270) (1370 + 10) 10),
     millivolts = TypeK_millivolts\<rparr>"

subsection \<open>The interpolation formulas as the specification words them\<close>

text \<open>
  The forward lookup of the specification: the bracket index
  \<open>floor((x_value - x[0]) / x_interval) + 1\<close>, the offset
  \<open>(x_value - x[0]) mod x_interval\<close> and the result
  \<open>y1 + (y2 - y1) / x_interval * offset\<close>. They are compared with \<open>from_x\<close> below.
\<close>

definition spec_forward_index :: "Interpolate \<Rightarrow> real \<Rightarrow> int" where
  "spec_forward_index ip x_value =
     \<lfloor>(x_value - x_array ip ! 0) / of_int (x_interval ip)\<rfloor> + 1"

definition spec_forward_offset :: "Interpolate \<Rightarrow> real \<Rightarrow> real" where
  "spec_forward_offset ip x_value =
     (x_value - x_array ip ! 0)
       - of_int (x_interval ip) * of_int \<lfloor>(x_value - x_array ip ! 0) / of_int (x_interval ip)\<rfloor>"

definition spec_forward :: "Interpolate \<Rightarrow> real \<Rightarrow> real" where
  "spec_forward ip x_value =
     (let i = nat (spec_forward_index ip x_value);
          y1 = y_array ip ! (i - 1); y2 = y_array ip ! i
      in y1 + (y2 - y1) / of_int (x_interval ip) * spec_forward_offset ip x_value)"

section \<open>Properties\<close>

subsection \<open>The binary search\<close>

text \<open>
  On a sorted list the search returns the insertion point to the right of every entry
  equal to the value: all entries before it are at most the value, all entries from it on
  are greater.
\<close>

declare bisect_loop.simps [simp del]

lemma bisect_loop_spec:
  assumes "sorted a" "lo \<le> hi" "hi \<le> length a"
    and "\<forall>j<lo. a ! j \<le> x"
    and "\<forall>j. hi \<le> j \<and> j < length a \<longrightarrow> x < a ! j"
  shows "lo \<le> bisect_loop a x lo hi \<and> bisect_loop a x lo hi \<le> hi \<and>
         (\<forall>j<bisect_loop a x lo hi. a ! j \<le> x) \<and>
         (\<forall>j. bisect_loop a x lo hi \<le> j \<and> j < length a \<longrightarrow> x < a ! j)"
  using assms
proof (induction a x lo hi rule: bisect_loop.induct)
  case (1 a x lo hi)
  show ?case
  proof (cases "lo < hi")
    case False
    then have eq: "bisect_loop a x lo hi = lo"
      by (simp add: bisect_loop.simps [of a x lo hi])
    from False "1.prems" show ?thesis unfolding eq by simp
  next
    case True
    define mid where "mid = (lo + hi) div 2"
    have mid: "lo \<le> mid" "mid < hi" using True by (simp_all add: mid_def)
    show ?thesis
    proof (cases "x < a ! mid")
      case lt: True
      have up: "\<forall>j. mid \<le> j \<and> j < length a \<longrightarrow> x < a ! j"
      proof (intro allI impI)
        fix j assume j: "mid \<le> j \<and> j < length a"
        then have "a ! mid \<le> a ! j"
          using \<open>sorted a\<close> by (simp add: sorted_nth_mono)
        with lt show "x < a ! j" by simp
      qed
      have eq: "bisect_loop a x lo hi = bisect_loop a x lo mid"
        using True lt by (simp add: bisect_loop.simps [of a x lo hi] mid_def)
      have "lo \<le> bisect_loop a x lo mid \<and> bisect_loop a x lo mid \<le> mid \<and>
         (\<forall>j<bisect_loop a x lo mid. a ! j \<le> x) \<and>
         (\<forall>j. bisect_loop a x lo mid \<le> j \<and> j < length a \<longrightarrow> x < a ! j)"
        using "1.IH"(1) [OF True mid_def lt \<open>sorted a\<close>] mid "1.prems" up by simp
      with mid show ?thesis unfolding eq by simp
    next
      case ge: False
      have low: "\<forall>j<mid + 1. a ! j \<le> x"
      proof (intro allI impI)
        fix j assume j: "j < mid + 1"
        then have "a ! j \<le> a ! mid"
          using \<open>sorted a\<close> mid "1.prems"(3) by (simp add: sorted_nth_mono)
        with ge show "a ! j \<le> x" by simp
      qed
      have eq: "bisect_loop a x lo hi = bisect_loop a x (mid + 1) hi"
        using True ge by (simp add: bisect_loop.simps [of a x lo hi] mid_def)
      have "mid + 1 \<le> bisect_loop a x (mid + 1) hi \<and> bisect_loop a x (mid + 1) hi \<le> hi \<and>
         (\<forall>j<bisect_loop a x (mid + 1) hi. a ! j \<le> x) \<and>
         (\<forall>j. bisect_loop a x (mid + 1) hi \<le> j \<and> j < length a \<longrightarrow> x < a ! j)"
        using "1.IH"(2) [OF True mid_def ge \<open>sorted a\<close>] mid "1.prems" low by simp
      with mid show ?thesis unfolding eq by simp
    qed
  qed
qed

lemma bisect_spec:
  assumes "sorted a"
  shows "bisect a x \<le> length a \<and> (\<forall>j<bisect a x. a ! j \<le> x) \<and>
         (\<forall>j. bisect a x \<le> j \<and> j < length a \<longrightarrow> x < a ! j)"
  using bisect_loop_spec [OF assms, of 0 "length a" x] by (simp add: bisect_def)

lemma bisect_unique:
  assumes "sorted a" "i \<le> length a" "\<forall>j<i. a ! j \<le> x"
    and "\<forall>j. i \<le> j \<and> j < length a \<longrightarrow> x < a ! j"
  shows "bisect a x = i"
proof (rule antisym)
  show "bisect a x \<le> i"
  proof (rule ccontr)
    assume "\<not> bisect a x \<le> i"
    then have "i < bisect a x" by simp
    with bisect_spec [OF assms(1), of x] have "a ! i \<le> x" "i < length a" by auto
    with assms(4) show False by auto
  qed
  show "i \<le> bisect a x"
  proof (rule ccontr)
    assume "\<not> i \<le> bisect a x"
    then have lt: "bisect a x < i" by simp
    with assms(3) have "a ! bisect a x \<le> x" by simp
    moreover from lt assms(2) bisect_spec [OF assms(1), of x] have "x < a ! bisect a x" by auto
    ultimately show False by simp
  qed
qed

lemma bisect_bracket:
  assumes "sorted a" "0 < i" "i < length a" "a ! (i - 1) \<le> x" "x < a ! i"
  shows "bisect a x = i"
proof (rule bisect_unique [OF assms(1)])
  show "i \<le> length a" using assms(3) by simp
  show "\<forall>j<i. a ! j \<le> x"
  proof (intro allI impI)
    fix j assume "j < i"
    then have "a ! j \<le> a ! (i - 1)" using assms(1,3) by (simp add: sorted_nth_mono)
    with assms(4) show "a ! j \<le> x" by simp
  qed
  show "\<forall>j. i \<le> j \<and> j < length a \<longrightarrow> x < a ! j"
  proof (intro allI impI)
    fix j assume "i \<le> j \<and> j < length a"
    then have "a ! i \<le> a ! j" using assms(1) by (simp add: sorted_nth_mono)
    with assms(5) show "x < a ! j" by simp
  qed
qed

lemma bisect_in_range:
  assumes srt: "sorted a" and lo: "a ! 0 \<le> v" and hi: "v < a ! (length a - 1)"
  shows "0 < bisect a v" and "bisect a v < length a"
    and "a ! (bisect a v - 1) \<le> v" and "v < a ! bisect a v"
    and "\<forall>j<bisect a v. a ! j \<le> v"
proof -
  note b = bisect_spec [OF srt, of v]
  have ne: "0 < length a"
  proof (rule ccontr)
    assume "\<not> 0 < length a"
    then have "length a - 1 = 0" by simp
    with lo hi show False by simp
  qed
  show i0: "0 < bisect a v"
  proof (rule ccontr)
    assume "\<not> 0 < bisect a v"
    then have "bisect a v = 0" by simp
    with b ne have "v < a ! 0" by simp
    with lo show False by simp
  qed
  show iN: "bisect a v < length a"
  proof (rule ccontr)
    assume "\<not> bisect a v < length a"
    with b have "bisect a v = length a" by simp
    with b ne have "a ! (length a - 1) \<le> v" by simp
    with hi show False by simp
  qed
  show "\<forall>j<bisect a v. a ! j \<le> v" using b by simp
  show "a ! (bisect a v - 1) \<le> v" using b i0 by simp
  show "v < a ! bisect a v" using b iN by simp
qed

subsection \<open>The Type K table\<close>

lemma TypeK_millivolts_length: "length TypeK_millivolts = 165"
  by (simp add: TypeK_millivolts_def)

lemma sorted_wrt_less2:
  "sorted_wrt (<) (x # y # zs) = ((x::real) < y \<and> sorted_wrt (<) (y # zs))"
  by (rule sorted_wrt2) (simp add: transp_def)

lemma TypeK_millivolts_strict: "sorted_wrt (<) TypeK_millivolts"
  unfolding TypeK_millivolts_def by (simp only: sorted_wrt_less2 sorted_wrt1) simp

lemma TypeK_degrees: "degrees TypeK = map (\<lambda>k. -270 + 10 * real k) [0 ..< 165]"
  by (simp add: TypeK_def py_range_def)

lemma TypeK_degrees_length: "length (degrees TypeK) = 165"
  by (simp add: TypeK_degrees)

lemma TypeK_degrees_nth: "k < 165 \<Longrightarrow> degrees TypeK ! k = -270 + 10 * real k"
  by (simp add: TypeK_degrees)

lemma interp_TypeK:
  "x_interval (interp TypeK) = 10"
  "x_array (interp TypeK) = degrees TypeK"
  "y_array (interp TypeK) = TypeK_millivolts"
  by (simp_all add: interp_def Interpolate_init_def TypeK_def py_int_def)

lemma TypeK_bounds:
  "min_degrees TypeK = -270" "max_degrees TypeK = 1370"
  "min_mv TypeK = -6.458" "max_mv TypeK = 54.818" "millivolts TypeK = TypeK_millivolts"
  by (simp_all add: TypeK_def)

subsection \<open>Forward lookup on the grid starting at -270 with step 10\<close>

text \<open>
  \<open>from_x\<close> adds the constant 28 to the floor quotient and takes the remainder
  modulo the constant 10. On a table whose first column starts at -270 and advances by
  10 this is the bracket of the query.
\<close>

lemma py_getitem_nat: "i < length xs \<Longrightarrow> py_getitem xs (int i) = Inr (xs ! i)"
  by (simp add: py_getitem_def)

lemma floor_grid_bounds:
  fixes x :: real
  assumes "-270 \<le> x" "x < -270 + 10 * real (n - 1)"
  shows "-27 \<le> \<lfloor>x / 10\<rfloor>" "\<lfloor>x / 10\<rfloor> + 28 < int n"
proof -
  from assms(1) have "real_of_int (-27) \<le> x / 10" by simp
  then show "-27 \<le> \<lfloor>x / 10\<rfloor>" by (simp only: le_floor_iff)
  from assms have n: "1 < n" by (cases n) auto
  from assms(2) n have "x / 10 < real_of_int (int n - 28)" by (simp add: of_nat_diff)
  then have "\<lfloor>x / 10\<rfloor> < int n - 28" by (simp only: floor_less_iff)
  then show "\<lfloor>x / 10\<rfloor> + 28 < int n" by simp
qed

lemma from_x_idx_grid:
  assumes "x_interval ip = 10"
  shows "from_x_idx ip x = Inr (py_int (of_int \<lfloor>x / 10\<rfloor> + 28))"
  using assms by (simp add: from_x_idx_def py_floordiv_def bind_err_def)

lemma from_x_grid:
  assumes iv: "x_interval ip = 10"
    and lo: "-270 \<le> x" and hi: "x < -270 + 10 * real (length (y_array ip) - 1)"
  defines "k \<equiv> nat (\<lfloor>x / 10\<rfloor> + 27)"
  shows "from_x_idx ip x = Inr (int k + 1)"
    and "k + 1 < length (y_array ip)"
    and "from_x ip x =
           Inr ((y_array ip ! (k + 1) - y_array ip ! k) / 10 * (x - 10 * of_int \<lfloor>x / 10\<rfloor>)
                + y_array ip ! k)"
proof -
  note b = floor_grid_bounds [OF lo hi]
  have "0 \<le> \<lfloor>x / 10\<rfloor> + 27" using b(1) by linarith
  then have k: "int k = \<lfloor>x / 10\<rfloor> + 27" by (simp only: k_def int_nat_eq if_True)
  have "(0::real) \<le> of_int (\<lfloor>x / 10\<rfloor> + 28)" using b(1) by (simp only: of_int_0_le_iff)
  then have "py_int (of_int \<lfloor>x / 10\<rfloor> + 28) = \<lfloor>x / 10\<rfloor> + 28"
    by (simp add: py_int_def)
  then show idx: "from_x_idx ip x = Inr (int k + 1)"
    using from_x_idx_grid [OF iv, of x] k by simp
  show kn: "k + 1 < length (y_array ip)" using b(2) k by linarith
  have g1: "py_getitem (y_array ip) (int k) = Inr (y_array ip ! k)"
    using kn by (simp add: py_getitem_nat)
  have g2: "py_getitem (y_array ip) (int k + 1) = Inr (y_array ip ! (k + 1))"
    using py_getitem_nat [of "k + 1" "y_array ip"] kn by (simp add: add.commute)
  show "from_x ip x =
           Inr ((y_array ip ! (k + 1) - y_array ip ! k) / 10 * (x - 10 * of_int \<lfloor>x / 10\<rfloor>)
                + y_array ip ! k)"
    by (simp add: from_x_def idx g1 g2 bind_err_def py_mod_def py_truediv_def iv)
qed

lemma floor_shift_grid: "\<lfloor>(x + 270) / 10\<rfloor> = \<lfloor>x / (10::real)\<rfloor> + 27"
proof -
  have "(x + 270) / 10 = x / 10 + of_int 27" by simp
  then show ?thesis by (simp only: floor_add_int)
qed

text \<open>
  On every table whose x column starts at -270 with step 10 and whose columns have equal
  length, the index \<open>from_x\<close> computes is the bracket index of the specification and
  the result is its linear blend.
\<close>

lemma from_x_spec_on_grid:
  assumes iv: "x_interval ip = 10"
    and len: "length (x_array ip) = length (y_array ip)"
    and grid: "\<forall>k<length (x_array ip). x_array ip ! k = -270 + 10 * real k"
    and lo: "x_array ip ! 0 \<le> x_value"
    and hi: "x_value < x_array ip ! (length (x_array ip) - 1)"
  shows "from_x_idx ip x_value = Inr (spec_forward_index ip x_value) \<and>
         0 < spec_forward_index ip x_value \<and>
         spec_forward_index ip x_value < int (length (y_array ip)) \<and>
         from_x ip x_value = Inr (spec_forward ip x_value) \<and>
         (spec_forward_offset ip x_value = 0 \<longrightarrow>
            from_x ip x_value = Inr (y_array ip ! (nat (spec_forward_index ip x_value) - 1)))"
proof -
  have ne: "0 < length (x_array ip)"
  proof (rule ccontr)
    assume "\<not> 0 < length (x_array ip)"
    then have "length (x_array ip) - 1 = 0" by simp
    with lo hi show False by simp
  qed
  have x0: "x_array ip ! 0 = -270" using grid ne by simp
  have xn: "x_array ip ! (length (x_array ip) - 1) = -270 + 10 * real (length (y_array ip) - 1)"
    using grid ne len by simp
  have lo': "-270 \<le> x_value" using lo x0 by simp
  have hi': "x_value < -270 + 10 * real (length (y_array ip) - 1)" using hi xn by simp
  define k where "k = nat (\<lfloor>x_value / 10\<rfloor> + 27)"
  note g = from_x_grid [OF iv lo' hi', folded k_def]
  have k0: "0 \<le> \<lfloor>x_value / 10\<rfloor> + 27"
    using floor_grid_bounds(1) [OF lo' hi'] by linarith
  then have k: "int k = \<lfloor>x_value / 10\<rfloor> + 27" by (simp only: k_def int_nat_eq if_True)
  have si: "spec_forward_index ip x_value = int k + 1"
    by (simp add: spec_forward_index_def x0 iv floor_shift_grid k)
  have so: "spec_forward_offset ip x_value = x_value - 10 * of_int \<lfloor>x_value / 10\<rfloor>"
    by (simp add: spec_forward_offset_def x0 iv floor_shift_grid algebra_simps)
  have nk: "nat (int k + 1) = k + 1" by simp
  have sf: "spec_forward ip x_value =
      y_array ip ! k + (y_array ip ! (k + 1) - y_array ip ! k) / 10
        * (x_value - 10 * of_int \<lfloor>x_value / 10\<rfloor>)"
    by (simp only: spec_forward_def si so nk Let_def iv) simp
  have r: "from_x ip x_value = Inr (spec_forward ip x_value)"
    by (simp only: g(3) sf add.commute)
  have z: "spec_forward_offset ip x_value = 0 \<longrightarrow> from_x ip x_value = Inr (y_array ip ! k)"
    by (simp add: g(3) so)
  show ?thesis
    using g(1,2) r z by (simp only: si nk) simp
qed

text \<open>
  The Type K table is such a table: on it \<open>from_x\<close> agrees with the specification
  for every query in \<open>[x[0], x[N-1])\<close>.
\<close>

lemma from_x_spec_on_TypeK:
  assumes "x_array (interp TypeK) ! 0 \<le> x_value"
    and "x_value < x_array (interp TypeK) ! (length (x_array (interp TypeK)) - 1)"
  shows "from_x_idx (interp TypeK) x_value = Inr (spec_forward_index (interp TypeK) x_value)"
    and "from_x (interp TypeK) x_value = Inr (spec_forward (interp TypeK) x_value)"
proof -
  have h1: "x_interval (interp TypeK) = 10" by (simp add: interp_TypeK)
  have h2: "length (x_array (interp TypeK)) = length (y_array (interp TypeK))"
    by (simp add: interp_TypeK TypeK_degrees_length TypeK_millivolts_length)
  have h3: "\<forall>k<length (x_array (interp TypeK)). x_array (interp TypeK) ! k = -270 + 10 * real k"
    by (simp add: interp_TypeK TypeK_degrees_length TypeK_degrees_nth)
  note g = from_x_spec_on_grid [OF h1 h2 h3 assms]
  show "from_x_idx (interp TypeK) x_value = Inr (spec_forward_index (interp TypeK) x_value)"
    using g by blast
  show "from_x (interp TypeK) x_value = Inr (spec_forward (interp TypeK) x_value)"
    using g by blast
qed

text \<open>
  C1: for every \<open>x_value\<close> in \<open>[x[0], x[N-1])\<close>, \<open>from_x\<close> returns
  \<open>y[i-1] + (y[i] - y[i-1]) / x_interval * offset\<close> with
  \<open>i = floor((x_value - x[0]) / x_interval) + 1\<close> and
  \<open>offset = (x_value - x[0]) mod x_interval\<close>. The code takes the origin from the
  literal 28 and the offset from the literal 10 instead of \<open>x[0]\<close> and
  \<open>x_interval\<close>, and so breaks this on other tables.
  On \<open>Interpolate(10, [0, 10, 20], [0, 1, 3])\<close> the query 5 lies in \<open>[0, 20)\<close>; the
  bracket index is 1 and the blend 1/2, while \<open>from_x\<close> computes index 28 and raises
  \<open>IndexError\<close>. On the same table \<open>from_y\<close>, which reads \<open>x_array\<close> and
  \<open>x_interval\<close>, inverts the blend: \<open>from_y(1/2) = 5\<close>.
  On \<open>Interpolate(5, [-135, -130, -125], [0, 1, 3])\<close> the query -132 lies in
  \<open>[-135, -125)\<close>; the index agrees, the offset is 3 and the blend 3/5, while
  \<open>from_x\<close> takes the offset 8 and returns 8/5.
\<close>

theorem from_x_hard_coded_origin_and_step:
  "x_array (Interpolate_init 10 [0, 10, 20] [0, 1, 3]) ! 0 \<le> 5 \<and>
   5 < x_array (Interpolate_init 10 [0, 10, 20] [0, 1, 3]) ! (3 - 1) \<and>
   spec_forward_index (Interpolate_init 10 [0, 10, 20] [0, 1, 3]) 5 = 1 \<and>
   spec_forward (Interpolate_init 10 [0, 10, 20] [0, 1, 3]) 5 = 1 / 2 \<and>
   from_x_idx (Interpolate_init 10 [0, 10, 20] [0, 1, 3]) 5 = Inr 28 \<and>
   from_x (Interpolate_init 10 [0, 10, 20] [0, 1, 3]) 5 = Inl IndexError \<and>
   from_y (Interpolate_init 10 [0, 10, 20] [0, 1, 3]) (1 / 2) = Inr 5 \<and>
   x_array (Interpolate_init 5 [-135, -130, -125] [0, 1, 3]) ! 0 \<le> -132 \<and>
   -132 < x_array (Interpolate_init 5 [-135, -130, -125] [0, 1, 3]) ! (3 - 1) \<and>
   spec_forward_index (Interpolate_init 5 [-135, -130, -125] [0, 1, 3]) (-132) = 1 \<and>
   from_x_idx (Interpolate_init 5 [-135, -130, -125] [0, 1, 3]) (-132) = Inr 1 \<and>
   spec_forward_offset (Interpolate_init 5 [-135, -130, -125] [0, 1, 3]) (-132) = 3 \<and>
   spec_forward (Interpolate_init 5 [-135, -130, -125] [0, 1, 3]) (-132) = 3 / 5 \<and>
   from_x (Interpolate_init 5 [-135, -130, -125] [0, 1, 3]) (-132) = Inr (8 / 5)"
proof -
  have a: "bisect [0, 1, 3] (1 / 2) = 1"
    by (rule bisect_bracket) simp_all
  have b: "from_y (Interpolate_init 10 [0, 10, 20] [0, 1, 3]) (1 / 2) = Inr 5"
    by (simp add: from_y_def from_y_idx_def a Interpolate_init_def py_int_def
        py_getitem_def py_truediv_def bind_err_def)
  have f1: "\<lfloor>(5::real) / 10\<rfloor> = 0" by simp
  have f2: "\<lfloor>- (132::real) / 5\<rfloor> = -27" by (simp add: floor_eq_iff)
  have f3: "\<lfloor>(3::real) / 5\<rfloor> = 0" by simp
  have f4: "\<lfloor>- (132::real) / 10\<rfloor> = -14" by (simp add: floor_eq_iff)
  have c: "x_array (Interpolate_init 10 [0, 10, 20] [0, 1, 3]) ! 0 \<le> 5 \<and>
   5 < x_array (Interpolate_init 10 [0, 10, 20] [0, 1, 3]) ! (3 - 1) \<and>
   spec_forward_index (Interpolate_init 10 [0, 10, 20] [0, 1, 3]) 5 = 1 \<and>
   spec_forward (Interpolate_init 10 [0, 10, 20] [0, 1, 3]) 5 = 1 / 2 \<and>
   from_x_idx (Interpolate_init 10 [0, 10, 20] [0, 1, 3]) 5 = Inr 28 \<and>
   from_x (Interpolate_init 10 [0, 10, 20] [0, 1, 3]) 5 = Inl IndexError"
    by (simp add: Interpolate_init_def py_int_def spec_forward_index_def spec_forward_def
        spec_forward_offset_def from_x_idx_def from_x_def py_floordiv_def py_mod_def
        py_getitem_def py_truediv_def bind_err_def)
  have d: "x_array (Interpolate_init 5 [-135, -130, -125] [0, 1, 3]) ! 0 \<le> -132 \<and>
   -132 < x_array (Interpolate_init 5 [-135, -130, -125] [0, 1, 3]) ! (3 - 1) \<and>
   spec_forward_index (Interpolate_init 5 [-135, -130, -125] [0, 1, 3]) (-132) = 1 \<and>
   from_x_idx (Interpolate_init 5 [-135, -130, -125] [0, 1, 3]) (-132) = Inr 1 \<and>
   spec_forward_offset (Interpolate_init 5 [-135, -130, -125] [0, 1, 3]) (-132) = 3 \<and>
   spec_forward (Interpolate_init 5 [-135, -130, -125] [0, 1, 3]) (-132) = 3 / 5 \<and>
   from_x (Interpolate_init 5 [-135, -130, -125] [0, 1, 3]) (-132) = Inr (8 / 5)"
    by (simp add: Interpolate_init_def py_int_def spec_forward_index_def spec_forward_def
        spec_forward_offset_def from_x_idx_def from_x_def py_floordiv_def py_mod_def
        py_getitem_def py_truediv_def bind_err_def f2 f3 f4)
  from b c d show ?thesis by blast
qed

subsection \<open>Inverse lookup\<close>

lemma interp_fields:
  "x_array (interp tc) = degrees tc" "y_array (interp tc) = millivolts tc"
  by (simp_all add: interp_def Interpolate_init_def)

lemma from_y_bracket:
  assumes srt: "sorted (y_array ip)"
    and len: "length (x_array ip) = length (y_array ip)"
    and i: "0 < i" "i < length (y_array ip)"
    and lo: "y_array ip ! (i - 1) \<le> v" and hi: "v < y_array ip ! i"
  shows "from_y_idx ip v = int i"
    and "from_y ip v =
           Inr (of_int (x_interval ip) / (y_array ip ! i - y_array ip ! (i - 1))
                  * (v - y_array ip ! (i - 1)) + x_array ip ! (i - 1))"
proof -
  show idx: "from_y_idx ip v = int i"
    using bisect_bracket [OF srt i lo hi] by (simp add: from_y_idx_def)
  have i1: "int i - 1 = int (i - 1)" using i(1) by simp
  have gx: "py_getitem (x_array ip) (int i - 1) = Inr (x_array ip ! (i - 1))"
    unfolding i1 by (rule py_getitem_nat) (use i len in linarith)
  have g1: "py_getitem (y_array ip) (int i - 1) = Inr (y_array ip ! (i - 1))"
    unfolding i1 by (rule py_getitem_nat) (use i in linarith)
  have g2: "py_getitem (y_array ip) (int i) = Inr (y_array ip ! i)"
    using i by (simp add: py_getitem_nat)
  have nz: "y_array ip ! i - y_array ip ! (i - 1) \<noteq> 0" using lo hi by simp
  show "from_y ip v =
           Inr (of_int (x_interval ip) / (y_array ip ! i - y_array ip ! (i - 1))
                  * (v - y_array ip ! (i - 1)) + x_array ip ! (i - 1))"
    using nz by (simp add: from_y_def idx gx g1 g2 bind_err_def py_truediv_def)
qed

lemma TypeK_sorted: "sorted TypeK_millivolts"
  using TypeK_millivolts_strict by (rule strict_sorted_imp_sorted)

lemma TypeK_from_y_half:
  "from_y_idx (interp TypeK) (1 / 2) = 29"
proof -
  have "from_y_idx (interp TypeK) (1 / 2) = int 29"
    by (rule from_y_bracket(1) [where i = 29])
      (simp_all add: interp_TypeK TypeK_sorted TypeK_degrees_length TypeK_millivolts_length,
       simp_all add: TypeK_millivolts_def)
  then show ?thesis by simp
qed

text \<open>
  C2: on a table with a strictly increasing y column and columns of equal length, for
  every \<open>y_value\<close> in \<open>[y[0], y[N-1])\<close> there is an index \<open>i\<close> in
  \<open>1..N-1\<close> that is the smallest with \<open>y[i] > y_value\<close>, it is the index
  \<open>from_y\<close> computes, and \<open>from_y\<close> returns
  \<open>x[i-1] + x_interval / (y[i] - y[i-1]) * (y_value - y[i-1])\<close>.
\<close>

theorem from_y_spec:
  assumes strict: "sorted_wrt (<) (y_array ip)"
    and len: "length (x_array ip) = length (y_array ip)"
    and lo: "y_array ip ! 0 \<le> y_value"
    and hi: "y_value < y_array ip ! (length (y_array ip) - 1)"
  shows "\<exists>i. 0 < i \<and> i < length (y_array ip) \<and>
           y_value < y_array ip ! i \<and> (\<forall>j<i. \<not> y_value < y_array ip ! j) \<and>
           from_y_idx ip y_value = int i \<and>
           from_y ip y_value =
             Inr (x_array ip ! (i - 1)
                  + of_int (x_interval ip) / (y_array ip ! i - y_array ip ! (i - 1))
                    * (y_value - y_array ip ! (i - 1)))"
proof -
  define i where "i = bisect (y_array ip) y_value"
  have srt: "sorted (y_array ip)" using strict by (rule strict_sorted_imp_sorted)
  note b = bisect_in_range [OF srt lo hi, folded i_def]
  have below: "\<forall>j<i. \<not> y_value < y_array ip ! j" using b(5) by (simp add: not_less)
  note r = from_y_bracket [OF srt len b(1) b(2) b(3) b(4)]
  have "from_y ip y_value =
             Inr (x_array ip ! (i - 1)
                  + of_int (x_interval ip) / (y_array ip ! i - y_array ip ! (i - 1))
                    * (y_value - y_array ip ! (i - 1)))"
    by (simp only: r(2) add.commute)
  with b(1) b(2) b(4) below r(1) show ?thesis by blast
qed

theorem from_y_spec_witness:
  "sorted_wrt (<) (y_array (interp TypeK)) \<and>
   length (x_array (interp TypeK)) = length (y_array (interp TypeK)) \<and>
   y_array (interp TypeK) ! 0 \<le> 1 / 2 \<and>
   1 / 2 < y_array (interp TypeK) ! (length (y_array (interp TypeK)) - 1) \<and>
   from_y_idx (interp TypeK) (1 / 2) = 29 \<and>
   from_y (interp TypeK) (1 / 2) = Inr (5040 / 401)"
proof -
  have h1: "sorted_wrt (<) (y_array (interp TypeK))"
    by (simp add: interp_TypeK TypeK_millivolts_strict)
  have h2: "length (x_array (interp TypeK)) = length (y_array (interp TypeK))"
    by (simp add: interp_TypeK TypeK_degrees_length TypeK_millivolts_length)
  have h3: "y_array (interp TypeK) ! 0 \<le> 1 / 2"
    by (simp add: interp_TypeK TypeK_millivolts_def)
  have h4: "1 / 2 < y_array (interp TypeK) ! (length (y_array (interp TypeK)) - 1)"
    by (simp add: interp_TypeK TypeK_millivolts_length) (simp add: TypeK_millivolts_def)
  from from_y_spec [OF h1 h2 h3 h4] obtain i where
    i: "from_y_idx (interp TypeK) (1 / 2) = int i"
    and r: "from_y (interp TypeK) (1 / 2) =
             Inr (x_array (interp TypeK) ! (i - 1)
                  + of_int (x_interval (interp TypeK))
                      / (y_array (interp TypeK) ! i - y_array (interp TypeK) ! (i - 1))
                    * (1 / 2 - y_array (interp TypeK) ! (i - 1)))"
    by blast
  from i have i29: "i = 29" by (simp add: TypeK_from_y_half)
  have x28: "degrees TypeK ! 28 = 10" by (simp add: TypeK_degrees_nth)
  have y28: "TypeK_millivolts ! 28 = 0.397" by (simp add: TypeK_millivolts_def)
  have y29: "TypeK_millivolts ! 29 = 0.798" by (simp add: TypeK_millivolts_def)
  have "from_y (interp TypeK) (1 / 2) = Inr (5040 / 401)"
    unfolding r i29 by (simp add: x28 y28 y29 interp_TypeK)
  with h1 h2 h3 h4 show ?thesis by (simp add: TypeK_from_y_half)
qed

subsection \<open>Inverse lookup at a sample point\<close>

lemma from_y_at_sample:
  assumes strict: "sorted_wrt (<) (y_array ip)"
    and len: "length (x_array ip) = length (y_array ip)"
    and i: "i + 1 < length (y_array ip)"
  shows "from_y_idx ip (y_array ip ! i) = int i + 1"
    and "from_y ip (y_array ip ! i) = Inr (x_array ip ! i)"
proof -
  have srt: "sorted (y_array ip)" using strict by (rule strict_sorted_imp_sorted)
  have up: "y_array ip ! i < y_array ip ! (i + 1)"
    using strict i by (simp add: sorted_wrt_nth_less)
  have lo: "y_array ip ! (i + 1 - 1) \<le> y_array ip ! i" by simp
  note r = from_y_bracket [OF srt len _ i lo up]
  show "from_y_idx ip (y_array ip ! i) = int i + 1" using r(1) by simp
  show "from_y ip (y_array ip ! i) = Inr (x_array ip ! i)" using r(2) by simp
qed

text \<open>
  C8 (as stated): at a \<open>y_value\<close> equal to a table entry the identity
  \<open>mv_to_degs(y[i]) = x[i]\<close> does not hold. It does hold: at the Type K entry
  \<open>y[27] = 0\<close>, which is in the domain, the search returns index 28, the segment whose
  lower endpoint is entry 27, and the result is \<open>x[27]\<close>.
\<close>

theorem mv_to_degs_sample_counterexample:
  "min_mv TypeK \<le> millivolts TypeK ! 27 \<and> millivolts TypeK ! 27 < max_mv TypeK \<and>
   from_y_idx (interp TypeK) (millivolts TypeK ! 27) = 28 \<and>
   mv_to_degs TypeK (millivolts TypeK ! 27) = Inr (degrees TypeK ! 27)"
proof -
  have y: "millivolts TypeK ! 27 = 0"
    by (simp add: TypeK_bounds) (simp add: TypeK_millivolts_def)
  have r: "min_mv TypeK \<le> millivolts TypeK ! 27" "millivolts TypeK ! 27 < max_mv TypeK"
    unfolding y by (simp_all add: TypeK_bounds)
  have s: "sorted_wrt (<) (y_array (interp TypeK))"
    by (simp add: interp_TypeK TypeK_millivolts_strict)
  have l: "length (x_array (interp TypeK)) = length (y_array (interp TypeK))"
    by (simp add: interp_TypeK TypeK_degrees_length TypeK_millivolts_length)
  have n: "27 + 1 < length (y_array (interp TypeK))"
    by (simp add: interp_TypeK TypeK_millivolts_length)
  note f = from_y_at_sample [OF s l n]
  show ?thesis
    using f r by (simp add: interp_fields mv_to_degs_def)
qed

text \<open>
  C8 (amended): when an in-domain \<open>y_value\<close> equals a table entry \<open>y[i]\<close> that is
  not the last one, in a table with a strictly increasing y column and columns of equal
  length, the search returns \<open>i + 1\<close>, the segment whose lower endpoint is that entry,
  and \<open>mv_to_degs(y[i]) = x[i]\<close>: the offset within the segment is zero.
\<close>

theorem mv_to_degs_at_sample:
  assumes "sorted_wrt (<) (millivolts tc)"
    and "length (degrees tc) = length (millivolts tc)"
    and "i + 1 < length (millivolts tc)"
    and "min_mv tc \<le> millivolts tc ! i" and "millivolts tc ! i < max_mv tc"
  shows "from_y_idx (interp tc) (millivolts tc ! i) = int i + 1 \<and>
         mv_to_degs tc (millivolts tc ! i) = Inr (degrees tc ! i)"
  using assms from_y_at_sample [of "interp tc" i]
  by (simp add: interp_fields mv_to_degs_def)

theorem mv_to_degs_at_sample_witness:
  "sorted_wrt (<) (millivolts TypeK) \<and>
   length (degrees TypeK) = length (millivolts TypeK) \<and>
   29 + 1 < length (millivolts TypeK) \<and>
   min_mv TypeK \<le> millivolts TypeK ! 29 \<and> millivolts TypeK ! 29 < max_mv TypeK \<and>
   millivolts TypeK ! 29 = 0.798 \<and> degrees TypeK ! 29 = 20 \<and>
   from_y_idx (interp TypeK) 0.798 = 30 \<and>
   mv_to_degs TypeK 0.798 = Inr 20"
proof -
  have h1: "sorted_wrt (<) (millivolts TypeK)"
    by (simp add: TypeK_bounds TypeK_millivolts_strict)
  have h2: "length (degrees TypeK) = length (millivolts TypeK)"
    by (simp add: TypeK_bounds TypeK_degrees_length TypeK_millivolts_length)
  have h3: "29 + 1 < length (millivolts TypeK)"
    by (simp add: TypeK_bounds TypeK_millivolts_length)
  have y: "millivolts TypeK ! 29 = 0.798"
    by (simp add: TypeK_bounds) (simp add: TypeK_millivolts_def)
  have x: "degrees TypeK ! 29 = 20" by (simp add: TypeK_degrees_nth)
  have h4: "min_mv TypeK \<le> millivolts TypeK ! 29" unfolding y by (simp add: TypeK_bounds)
  have h5: "millivolts TypeK ! 29 < max_mv TypeK" unfolding y by (simp add: TypeK_bounds)
  show ?thesis
    using mv_to_degs_at_sample [OF h1 h2 h3 h4 h5] h1 h2 h3 h4 h5 by (simp add: x y)
qed

subsection \<open>Lookups on the Type K table\<close>

lemma TypeK_from_x:
  assumes "-270 \<le> d" "d < 1370"
  shows "from_x_idx (interp TypeK) d = Inr (\<lfloor>d / 10\<rfloor> + 28)"
    and "1 \<le> \<lfloor>d / 10\<rfloor> + 28" and "\<lfloor>d / 10\<rfloor> + 28 \<le> 164"
    and "\<exists>v. from_x (interp TypeK) d = Inr v"
proof -
  have hi: "d < -270 + 10 * real (length (y_array (interp TypeK)) - 1)"
    using assms(2) by (simp add: interp_TypeK TypeK_millivolts_length)
  note b = floor_grid_bounds [OF assms(1) hi]
  note g = from_x_grid [OF interp_TypeK(1) assms(1) hi]
  have k: "int (nat (\<lfloor>d / 10\<rfloor> + 27)) = \<lfloor>d / 10\<rfloor> + 27" using b(1) by linarith
  show "from_x_idx (interp TypeK) d = Inr (\<lfloor>d / 10\<rfloor> + 28)"
    using g(1) by (simp only: k) simp
  show "1 \<le> \<lfloor>d / 10\<rfloor> + 28" using b(1) by linarith
  show "\<lfloor>d / 10\<rfloor> + 28 \<le> 164"
    using b(2) by (simp add: interp_TypeK TypeK_millivolts_length)
  show "\<exists>v. from_x (interp TypeK) d = Inr v" using g(3) by blast
qed

lemma TypeK_from_y:
  assumes "-6.458 \<le> mv" "mv < 54.818"
  shows "0 < bisect TypeK_millivolts mv" and "bisect TypeK_millivolts mv < 165"
    and "TypeK_millivolts ! (bisect TypeK_millivolts mv - 1) \<le> mv"
    and "mv < TypeK_millivolts ! bisect TypeK_millivolts mv"
    and "\<exists>v. from_y (interp TypeK) mv = Inr v"
proof -
  have lo: "TypeK_millivolts ! 0 \<le> mv" using assms(1) by (simp add: TypeK_millivolts_def)
  have "TypeK_millivolts ! 164 = 54.819" by (simp add: TypeK_millivolts_def)
  then have hi: "mv < TypeK_millivolts ! (length TypeK_millivolts - 1)"
    using assms(2) by (simp add: TypeK_millivolts_length)
  note b = bisect_in_range [OF TypeK_sorted lo hi]
  show "0 < bisect TypeK_millivolts mv" by (rule b(1))
  show "bisect TypeK_millivolts mv < 165" using b(2) by (simp add: TypeK_millivolts_length)
  show "TypeK_millivolts ! (bisect TypeK_millivolts mv - 1) \<le> mv" by (rule b(3))
  show "mv < TypeK_millivolts ! bisect TypeK_millivolts mv" by (rule b(4))
  have s: "sorted (y_array (interp TypeK))" by (simp add: interp_TypeK TypeK_sorted)
  have l: "length (x_array (interp TypeK)) = length (y_array (interp TypeK))"
    by (simp add: interp_TypeK TypeK_degrees_length TypeK_millivolts_length)
  have "\<exists>v. from_y (interp TypeK) mv = Inr v"
    using from_y_bracket(2) [OF s l, of "bisect TypeK_millivolts mv" mv] b
    by (simp add: interp_TypeK)
  then show "\<exists>v. from_y (interp TypeK) mv = Inr v" .
qed

lemma TypeK_from_x_value:
  assumes "-270 \<le> d" "d < 1370"
  shows "from_x (interp TypeK) d =
           Inr ((TypeK_millivolts ! (nat (\<lfloor>d / 10\<rfloor> + 27) + 1)
                   - TypeK_millivolts ! nat (\<lfloor>d / 10\<rfloor> + 27)) / 10
                  * (d - 10 * of_int \<lfloor>d / 10\<rfloor>)
                + TypeK_millivolts ! nat (\<lfloor>d / 10\<rfloor> + 27))"
proof -
  have hi: "d < -270 + 10 * real (length (y_array (interp TypeK)) - 1)"
    using assms(2) by (simp add: interp_TypeK TypeK_millivolts_length)
  show ?thesis
    using from_x_grid(3) [OF interp_TypeK(1) assms(1) hi] by (simp only: interp_TypeK)
qed

lemma TypeK_from_y_value:
  assumes "0 < i" "i < 165" "TypeK_millivolts ! (i - 1) \<le> mv" "mv < TypeK_millivolts ! i"
  shows "from_y_idx (interp TypeK) mv = int i"
    and "from_y (interp TypeK) mv =
           Inr (10 / (TypeK_millivolts ! i - TypeK_millivolts ! (i - 1))
                  * (mv - TypeK_millivolts ! (i - 1)) + degrees TypeK ! (i - 1))"
proof -
  have s: "sorted (y_array (interp TypeK))" by (simp add: interp_TypeK TypeK_sorted)
  have l: "length (x_array (interp TypeK)) = length (y_array (interp TypeK))"
    by (simp add: interp_TypeK TypeK_degrees_length TypeK_millivolts_length)
  have n: "i < length (y_array (interp TypeK))"
    using assms(2) by (simp add: interp_TypeK TypeK_millivolts_length)
  have lo: "y_array (interp TypeK) ! (i - 1) \<le> mv" using assms(3) by (simp add: interp_TypeK)
  have hi: "mv < y_array (interp TypeK) ! i" using assms(4) by (simp add: interp_TypeK)
  note r = from_y_bracket [OF s l assms(1) n lo hi]
  show "from_y_idx (interp TypeK) mv = int i" by (rule r(1))
  show "from_y (interp TypeK) mv =
           Inr (10 / (TypeK_millivolts ! i - TypeK_millivolts ! (i - 1))
                  * (mv - TypeK_millivolts ! (i - 1)) + degrees TypeK ! (i - 1))"
    using r(2) by (simp add: interp_TypeK)
qed

lemma TypeK_degs_to_mv_20: "degs_to_mv TypeK 20 = Inr 0.798"
proof -
  have "from_x (interp TypeK) 20 = Inr 0.798"
    using TypeK_from_x_value [of 20] by (simp add: TypeK_millivolts_def)
  then show ?thesis by (simp add: degs_to_mv_def TypeK_bounds)
qed

lemma TypeK_from_x_idx_20: "from_x_idx (interp TypeK) 20 = Inr 30"
  using TypeK_from_x(1) [of 20] by simp

lemma TypeK_mv_to_degs_half: "mv_to_degs TypeK (1 / 2) = Inr (5040 / 401)"
proof -
  have "from_y (interp TypeK) (1 / 2) = Inr (5040 / 401)"
    using TypeK_from_y_value(2) [of 29 "1 / 2"]
    by (simp add: TypeK_degrees_nth) (simp add: TypeK_millivolts_def)
  then show ?thesis by (simp add: mv_to_degs_def TypeK_bounds)
qed

text \<open>
  C10: for every input the range checks accept over the Type K table, the indices
  \<open>idx - 1\<close> and \<open>idx\<close> read by \<open>from_x\<close> and by \<open>from_y\<close> lie in
  \<open>0..N-1\<close>, the divisors are not zero (\<open>x_interval = 10\<close> and \<open>y2 - y1 > 0\<close>), and
  both conversions return a value: neither \<open>IndexError\<close> nor \<open>ZeroDivisionError\<close>
  occurs.
\<close>

theorem TypeK_lookups_safe:
  "(min_degrees TypeK \<le> d \<and> d < max_degrees TypeK \<longrightarrow>
      (\<exists>idx. from_x_idx (interp TypeK) d = Inr idx \<and>
             0 \<le> idx - 1 \<and> idx \<le> int (length (y_array (interp TypeK))) - 1) \<and>
      x_interval (interp TypeK) = 10 \<and>
      (\<exists>v. degs_to_mv TypeK d = Inr v)) \<and>
   (min_mv TypeK \<le> mv \<and> mv < max_mv TypeK \<longrightarrow>
      0 \<le> from_y_idx (interp TypeK) mv - 1 \<and>
      from_y_idx (interp TypeK) mv \<le> int (length (y_array (interp TypeK))) - 1 \<and>
      from_y_idx (interp TypeK) mv \<le> int (length (x_array (interp TypeK))) - 1 \<and>
      0 < y_array (interp TypeK) ! nat (from_y_idx (interp TypeK) mv)
            - y_array (interp TypeK) ! nat (from_y_idx (interp TypeK) mv - 1) \<and>
      (\<exists>v. mv_to_degs TypeK mv = Inr v))"
proof (intro conjI impI)
  assume d: "min_degrees TypeK \<le> d \<and> d < max_degrees TypeK"
  then have d': "-270 \<le> d" "d < 1370" by (simp_all add: TypeK_bounds)
  note x = TypeK_from_x [OF d']
  show "\<exists>idx. from_x_idx (interp TypeK) d = Inr idx \<and>
             0 \<le> idx - 1 \<and> idx \<le> int (length (y_array (interp TypeK))) - 1"
    using x(1,2,3) by (simp add: interp_TypeK TypeK_millivolts_length)
  show "x_interval (interp TypeK) = 10" by (rule interp_TypeK(1))
  show "\<exists>v. degs_to_mv TypeK d = Inr v"
    using d x(4) by (simp add: degs_to_mv_def)
next
  assume m: "min_mv TypeK \<le> mv \<and> mv < max_mv TypeK"
  then have m': "-6.458 \<le> mv" "mv < 54.818" by (simp_all add: TypeK_bounds)
  note y = TypeK_from_y [OF m']
  have idx: "from_y_idx (interp TypeK) mv = int (bisect TypeK_millivolts mv)"
    by (simp add: from_y_idx_def interp_TypeK)
  have n1: "nat (int (bisect TypeK_millivolts mv) - 1) = bisect TypeK_millivolts mv - 1"
    by simp
  show "0 \<le> from_y_idx (interp TypeK) mv - 1" using y(1) by (simp add: idx)
  show "from_y_idx (interp TypeK) mv \<le> int (length (y_array (interp TypeK))) - 1"
    using y(2) by (simp add: idx interp_TypeK TypeK_millivolts_length)
  show "from_y_idx (interp TypeK) mv \<le> int (length (x_array (interp TypeK))) - 1"
    using y(2) by (simp add: idx interp_TypeK TypeK_degrees_length)
  show "0 < y_array (interp TypeK) ! nat (from_y_idx (interp TypeK) mv)
            - y_array (interp TypeK) ! nat (from_y_idx (interp TypeK) mv - 1)"
    using y(3,4) by (simp only: idx n1 nat_int interp_TypeK)
  show "\<exists>v. mv_to_degs TypeK mv = Inr v"
    using m y(5) by (simp add: mv_to_degs_def)
qed

theorem TypeK_lookups_safe_witness:
  "min_degrees TypeK \<le> 20 \<and> 20 < max_degrees TypeK \<and>
   from_x_idx (interp TypeK) 20 = Inr 30 \<and> 0 \<le> (30::int) - 1 \<and>
   30 \<le> int (length (y_array (interp TypeK))) - 1 \<and>
   degs_to_mv TypeK 20 = Inr 0.798 \<and>
   min_mv TypeK \<le> 1 / 2 \<and> 1 / 2 < max_mv TypeK \<and>
   from_y_idx (interp TypeK) (1 / 2) = 29 \<and>
   0 < y_array (interp TypeK) ! 29 - y_array (interp TypeK) ! 28 \<and>
   mv_to_degs TypeK (1 / 2) = Inr (5040 / 401)"
proof -
  have h1: "min_degrees TypeK \<le> 20 \<and> 20 < max_degrees TypeK" by (simp add: TypeK_bounds)
  have h2: "min_mv TypeK \<le> 1 / 2 \<and> 1 / 2 < max_mv TypeK" by (simp add: TypeK_bounds)
  have n: "nat (29 - 1) = 28" by simp
  show ?thesis
    using TypeK_lookups_safe [of 20 "1 / 2"] h1 h2
    by (simp add: TypeK_from_x_idx_20 TypeK_from_y_half TypeK_degs_to_mv_20
        TypeK_mv_to_degs_half)
qed

subsection \<open>The range checks\<close>

text \<open>
  The interpolation routines raise \<open>IndexError\<close> or \<open>ZeroDivisionError\<close> at most: a
  \<open>RangeError\<close> comes from a range check only.
\<close>

lemma from_x_not_RangeError: "from_x ip x \<noteq> Inl (RangeError m)"
  by (simp add: from_x_def from_x_idx_def py_floordiv_def py_mod_def py_getitem_def
      py_truediv_def bind_err_def split: sum.splits if_splits)

lemma from_y_not_RangeError: "from_y ip y \<noteq> Inl (RangeError m)"
  by (simp add: from_y_def py_getitem_def py_truediv_def bind_err_def Let_def
      split: sum.splits if_splits)

lemma TypeK_degs_to_mv_min: "degs_to_mv TypeK (-270) = Inr (-6.458)"
proof -
  have "from_x (interp TypeK) (-270) = Inr (-6.458)"
    using TypeK_from_x_value [of "-270"] by (simp add: TypeK_millivolts_def)
  then show ?thesis by (simp add: degs_to_mv_def TypeK_bounds)
qed

text \<open>
  C4: for every converter, \<open>degs_to_mv\<close> raises \<open>RangeError\<close> if and only if the
  argument lies outside \<open>[min_degrees, max_degrees)\<close>, and inside it returns what
  \<open>from_x\<close> returns. On the Type K converter \<open>degs_to_mv(max_degrees)\<close> and
  \<open>degs_to_mv(min_degrees - eps)\<close> for every positive \<open>eps\<close> raise \<open>RangeError\<close>,
  and \<open>degs_to_mv(min_degrees)\<close> succeeds with the value of \<open>from_x\<close>, the first
  table entry.
\<close>

theorem degs_to_mv_range_check:
  "((\<exists>m. degs_to_mv tc d = Inl (RangeError m)) \<longleftrightarrow>
      \<not> (min_degrees tc \<le> d \<and> d < max_degrees tc)) \<and>
   (min_degrees tc \<le> d \<and> d < max_degrees tc \<longrightarrow>
      degs_to_mv tc d = from_x (interp tc) d) \<and>
   (\<exists>m. degs_to_mv TypeK (max_degrees TypeK) = Inl (RangeError m)) \<and>
   (0 < eps \<longrightarrow> (\<exists>m. degs_to_mv TypeK (min_degrees TypeK - eps) = Inl (RangeError m))) \<and>
   degs_to_mv TypeK (min_degrees TypeK) = from_x (interp TypeK) (min_degrees TypeK) \<and>
   degs_to_mv TypeK (min_degrees TypeK) = Inr (-6.458)"
proof (intro conjI impI)
  show "(\<exists>m. degs_to_mv tc d = Inl (RangeError m)) \<longleftrightarrow>
      \<not> (min_degrees tc \<le> d \<and> d < max_degrees tc)"
    by (auto simp add: degs_to_mv_def out_of_range_def from_x_not_RangeError)
  show "degs_to_mv tc d = from_x (interp tc) d"
    if "min_degrees tc \<le> d \<and> d < max_degrees tc"
    using that by (simp add: degs_to_mv_def)
  show "\<exists>m. degs_to_mv TypeK (max_degrees TypeK) = Inl (RangeError m)"
    by (simp add: degs_to_mv_def out_of_range_def)
  show "\<exists>m. degs_to_mv TypeK (min_degrees TypeK - eps) = Inl (RangeError m)" if "0 < eps"
    using that by (simp add: degs_to_mv_def out_of_range_def)
  show "degs_to_mv TypeK (min_degrees TypeK) = from_x (interp TypeK) (min_degrees TypeK)"
    by (simp add: degs_to_mv_def TypeK_bounds)
  show "degs_to_mv TypeK (min_degrees TypeK) = Inr (-6.458)"
    using TypeK_degs_to_mv_min by (simp add: TypeK_bounds)
qed

theorem degs_to_mv_range_check_witness:
  "min_degrees TypeK \<le> 20 \<and> 20 < max_degrees TypeK \<and>
   degs_to_mv TypeK 20 = from_x (interp TypeK) 20 \<and>
   \<not> (\<exists>m. degs_to_mv TypeK 20 = Inl (RangeError m)) \<and>
   (0::real) < 1 \<and> (\<exists>m. degs_to_mv TypeK (min_degrees TypeK - 1) = Inl (RangeError m))"
proof -
  have h: "min_degrees TypeK \<le> 20 \<and> 20 < max_degrees TypeK" by (simp add: TypeK_bounds)
  have e: "(0::real) < 1" by simp
  show ?thesis
    using degs_to_mv_range_check [of TypeK 20 1] h e by blast
qed

subsection \<open>Cold-junction compensation\<close>

lemma TypeK_mv_to_degs_14798: "mv_to_degs TypeK 14.798 = Inr (15205 / 42)"
proof -
  have "from_y (interp TypeK) 14.798 = Inr (15205 / 42)"
    using TypeK_from_y_value(2) [of 64 "14.798"]
    by (simp add: TypeK_degrees_nth) (simp add: TypeK_millivolts_def)
  then show ?thesis by (simp add: mv_to_degs_def TypeK_bounds)
qed

text \<open>
  C3: \<open>temperature\<close> returns \<open>mv_to_degs(degs_to_mv(reference) + junction)\<close>; when
  \<open>degs_to_mv\<close> raises, or when \<open>mv_to_degs\<close> raises on the sum, that same error
  is the result of \<open>temperature\<close>.
\<close>

theorem temperature_composes:
  "(degs_to_mv tc r = Inr mv \<longrightarrow> temperature tc r j = mv_to_degs tc (mv + j)) \<and>
   (degs_to_mv tc r = Inl e \<longrightarrow> temperature tc r j = Inl e) \<and>
   (degs_to_mv tc r = Inr mv \<and> mv_to_degs tc (mv + j) = Inl e \<longrightarrow>
      temperature tc r j = Inl e)"
  by (simp add: temperature_def bind_err_def)

theorem temperature_composes_witness:
  "degs_to_mv TypeK 20 = Inr 0.798 \<and>
   temperature TypeK 20 14 = Inr (15205 / 42) \<and>
   degs_to_mv TypeK 2000 = Inl (out_of_range 2000) \<and>
   temperature TypeK 2000 14 = Inl (out_of_range 2000) \<and>
   mv_to_degs TypeK (0.798 + 60) = Inl (out_of_range 60.798) \<and>
   temperature TypeK 20 60 = Inl (out_of_range 60.798)"
proof -
  have a: "degs_to_mv TypeK 20 = Inr 0.798" by (rule TypeK_degs_to_mv_20)
  have b: "degs_to_mv TypeK 2000 = Inl (out_of_range 2000)"
    by (simp add: degs_to_mv_def TypeK_bounds)
  have c: "mv_to_degs TypeK (0.798 + 60) = Inl (out_of_range 60.798)"
    by (simp add: mv_to_degs_def TypeK_bounds)
  have s: "(0.798::real) + 14 = 14.798" by simp
  have t1: "temperature TypeK 20 14 = Inr (15205 / 42)"
    using temperature_composes [of TypeK 20 "0.798" 14] a
    by (simp only: s TypeK_mv_to_degs_14798)
  have t2: "temperature TypeK 2000 14 = Inl (out_of_range 2000)"
    using temperature_composes [of TypeK 2000 _ 14 "out_of_range 2000"] b by simp
  have t3: "temperature TypeK 20 60 = Inl (out_of_range 60.798)"
    using temperature_composes [of TypeK 20 "0.798" 60 "out_of_range 60.798"] a c by simp
  from a b c t1 t2 t3 show ?thesis by simp
qed

subsection \<open>What a RangeError carries\<close>

text \<open>
  C9 (as stated): every \<open>RangeError\<close> of \<open>degs_to_mv\<close> and \<open>mv_to_degs\<close> carries
  the offending value and an indication of the bound and the axis it violated. The
  error is the formatted value followed by a fixed text and nothing else: the value 2000
  above the upper bound of either axis gives the same error from both functions, and an
  error below a lower bound differs from one above an upper bound in the value only.
\<close>

theorem range_error_same_for_both_axes_counterexample:
  "degs_to_mv TypeK 2000 = Inl (RangeError [Val 2000, Lit ''mV out of range.'']) \<and>
   mv_to_degs TypeK 2000 = Inl (RangeError [Val 2000, Lit ''mV out of range.'']) \<and>
   degs_to_mv TypeK (-300) = Inl (RangeError [Val (-300), Lit ''mV out of range.'']) \<and>
   mv_to_degs TypeK (-300) = Inl (RangeError [Val (-300), Lit ''mV out of range.''])"
  by (simp add: degs_to_mv_def mv_to_degs_def out_of_range_def TypeK_bounds)

text \<open>
  C9 (amended): every \<open>RangeError\<close> raised by \<open>degs_to_mv\<close> or by \<open>mv_to_degs\<close>,
  on any converter, carries the offending input value, formatted in front of a text that
  is fixed for the function; it does not depend on which bound was violated.
\<close>

theorem range_error_carries_value_only:
  "\<exists>lit_degs lit_mv. \<forall>tc v m.
     (degs_to_mv tc v = Inl (RangeError m) \<longrightarrow> m = [Val v, Lit lit_degs]) \<and>
     (mv_to_degs tc v = Inl (RangeError m) \<longrightarrow> m = [Val v, Lit lit_mv])"
proof (intro exI allI conjI impI)
  fix tc v m
  show "m = [Val v, Lit ''mV out of range.'']" if "degs_to_mv tc v = Inl (RangeError m)"
    using that
    by (simp add: degs_to_mv_def out_of_range_def from_x_not_RangeError split: if_splits)
  show "m = [Val v, Lit ''mV out of range.'']" if "mv_to_degs tc v = Inl (RangeError m)"
    using that
    by (simp add: mv_to_degs_def out_of_range_def from_y_not_RangeError split: if_splits)
qed

theorem range_error_carries_value_only_witness:
  "\<exists>lit_degs lit_mv.
     degs_to_mv TypeK 1500 = Inl (RangeError [Val 1500, Lit lit_degs]) \<and>
     degs_to_mv TypeK (-271) = Inl (RangeError [Val (-271), Lit lit_degs]) \<and>
     mv_to_degs TypeK 55 = Inl (RangeError [Val 55, Lit lit_mv]) \<and>
     mv_to_degs TypeK (-7) = Inl (RangeError [Val (-7), Lit lit_mv])"
proof -
  from range_error_carries_value_only obtain lit_degs lit_mv where
    l: "\<And>tc v m. degs_to_mv tc v = Inl (RangeError m) \<Longrightarrow> m = [Val v, Lit lit_degs]"
       "\<And>tc v m. mv_to_degs tc v = Inl (RangeError m) \<Longrightarrow> m = [Val v, Lit lit_mv]"
    by blast
  have a: "degs_to_mv TypeK 1500 = Inl (RangeError [Val 1500, Lit ''mV out of range.''])"
    by (simp add: degs_to_mv_def out_of_range_def TypeK_bounds)
  have b: "degs_to_mv TypeK (-271) = Inl (RangeError [Val (-271), Lit ''mV out of range.''])"
    by (simp add: degs_to_mv_def out_of_range_def TypeK_bounds)
  have c: "mv_to_degs TypeK 55 = Inl (RangeError [Val 55, Lit ''mV out of range.''])"
    by (simp add: mv_to_degs_def out_of_range_def TypeK_bounds)
  have d: "mv_to_degs TypeK (-7) = Inl (RangeError [Val (-7), Lit ''mV out of range.''])"
    by (simp add: mv_to_degs_def out_of_range_def TypeK_bounds)
  from l(1) [OF a] l(1) [OF b] l(2) [OF c] l(2) [OF d] a b c d show ?thesis by auto
qed

subsection \<open>The declared bounds and the table\<close>

text \<open>
  C7 (as stated): the Type K table has 154 sample points. Both columns have 165 entries.
\<close>

theorem TypeK_table_size_counterexample:
  "length (degrees TypeK) = 165 \<and> length (millivolts TypeK) = 165 \<and>
   length (degrees TypeK) \<noteq> 154"
  by (simp add: TypeK_degrees_length TypeK_bounds TypeK_millivolts_length)

text \<open>
  C7 (amended): the Type K degrees column runs from -270 to 1370 at a constant step of
  10, which gives 165 sample points; the literal millivolt column has the same length and
  is strictly increasing throughout.
\<close>

theorem TypeK_table_shape:
  "degrees TypeK = map (\<lambda>k. -270 + 10 * real k) [0 ..< 165] \<and>
   degrees TypeK ! 0 = -270 \<and>
   degrees TypeK ! (length (degrees TypeK) - 1) = 1370 \<and>
   length (degrees TypeK) = 165 \<and>
   length (millivolts TypeK) = length (degrees TypeK) \<and>
   sorted_wrt (<) (millivolts TypeK)"
proof -
  have "degrees TypeK ! 0 = -270" "degrees TypeK ! 164 = 1370"
    by (simp_all add: TypeK_degrees_nth)
  then show ?thesis
    using TypeK_degrees
    by (simp add: TypeK_degrees_length TypeK_bounds TypeK_millivolts_length
        TypeK_millivolts_strict)
qed

text \<open>
  C6: the declared bounds are the first and last entries of the table columns. This holds
  for \<open>min_degrees\<close>, \<open>max_degrees\<close> and \<open>min_mv\<close>; the constant \<open>max_mv\<close> is
  54.818 while the last millivolt entry is 54.819.
\<close>

theorem TypeK_declared_bounds:
  "min_degrees TypeK = degrees TypeK ! 0 \<and>
   max_degrees TypeK = degrees TypeK ! (length (degrees TypeK) - 1) \<and>
   min_mv TypeK = millivolts TypeK ! 0 \<and>
   max_mv TypeK = 54.818 \<and>
   millivolts TypeK ! (length (millivolts TypeK) - 1) = 54.819 \<and>
   max_mv TypeK \<noteq> millivolts TypeK ! (length (millivolts TypeK) - 1)"
proof -
  have a: "TypeK_millivolts ! 0 = -6.458" by (simp add: TypeK_millivolts_def)
  have b: "TypeK_millivolts ! 164 = 54.819" by (simp add: TypeK_millivolts_def)
  show ?thesis
    by (simp add: TypeK_bounds TypeK_degrees_length TypeK_degrees_nth
        TypeK_millivolts_length a b)
qed

subsection \<open>Round trip\<close>

text \<open>
  When the forward image of an accepted temperature is below \<open>max_mv\<close>, the inverse
  conversion accepts it and returns the temperature.
\<close>

lemma TypeK_round_trip:
  assumes lo: "-270 \<le> d" and hi: "d < 1370"
    and fwd: "degs_to_mv TypeK d = Inr mv" and top: "mv < max_mv TypeK"
  shows "mv_to_degs TypeK mv = Inr d"
proof -
  define k where "k = nat (\<lfloor>d / 10\<rfloor> + 27)"
  define off where "off = d - 10 * of_int \<lfloor>d / 10\<rfloor>"
  note b = TypeK_from_x(2,3) [OF lo hi]
  have k: "int k = \<lfloor>d / 10\<rfloor> + 27" using b(1) unfolding k_def by linarith
  have kn: "k + 1 < 165" using b(2) k by linarith
  have off: "0 \<le> off" "off < 10"
    unfolding off_def by linarith+
  have dk: "d = -270 + 10 * real k + off"
  proof -
    have "real k = of_int (\<lfloor>d / 10\<rfloor> + 27)" using k by (metis of_int_of_nat_eq)
    then show ?thesis by (simp add: off_def)
  qed
  have step: "TypeK_millivolts ! k < TypeK_millivolts ! (k + 1)"
    using TypeK_millivolts_strict kn
    by (simp add: sorted_wrt_nth_less TypeK_millivolts_length)
  have "from_x (interp TypeK) d =
      Inr ((TypeK_millivolts ! (k + 1) - TypeK_millivolts ! k) / 10 * off + TypeK_millivolts ! k)"
    using TypeK_from_x_value [OF lo hi] by (simp only: k_def off_def)
  with fwd lo hi have mv:
    "mv = (TypeK_millivolts ! (k + 1) - TypeK_millivolts ! k) / 10 * off + TypeK_millivolts ! k"
    by (simp add: degs_to_mv_def TypeK_bounds)
  have ge: "TypeK_millivolts ! k \<le> mv"
    unfolding mv using step off(1) by simp
  have "(TypeK_millivolts ! (k + 1) - TypeK_millivolts ! k) / 10 * off
          < (TypeK_millivolts ! (k + 1) - TypeK_millivolts ! k) / 10 * 10"
    using step off(2) by (intro mult_strict_left_mono) simp_all
  then have lt: "mv < TypeK_millivolts ! (k + 1)" unfolding mv by simp
  have ge': "TypeK_millivolts ! (k + 1 - 1) \<le> mv" using ge by simp
  have "from_y (interp TypeK) mv =
      Inr (10 / (TypeK_millivolts ! (k + 1) - TypeK_millivolts ! k)
             * (mv - TypeK_millivolts ! k) + degrees TypeK ! k)"
    using TypeK_from_y_value(2) [OF _ kn ge' lt] by simp
  moreover have "10 / (TypeK_millivolts ! (k + 1) - TypeK_millivolts ! k)
             * (mv - TypeK_millivolts ! k) = off"
    unfolding mv using step by simp
  moreover have "degrees TypeK ! k = -270 + 10 * real k"
    using kn by (simp add: TypeK_degrees_nth)
  ultimately have inv: "from_y (interp TypeK) mv = Inr d" using dk by simp
  have "TypeK_millivolts ! 0 \<le> TypeK_millivolts ! k"
    using TypeK_sorted kn by (simp add: sorted_nth_mono TypeK_millivolts_length)
  moreover have "TypeK_millivolts ! 0 = -6.458" by (simp add: TypeK_millivolts_def)
  ultimately have "min_mv TypeK \<le> mv" using ge by (simp add: TypeK_bounds)
  with top inv show ?thesis by (simp add: mv_to_degs_def)
qed

text \<open>
  C5: for every \<open>d\<close> strictly inside \<open>(min_degrees, max_degrees)\<close> the round trip
  \<open>mv_to_degs(degs_to_mv(d))\<close> succeeds. At \<open>d = 1369.98\<close> the forward conversion
  returns 54.81832, which is below the last table entry and not below \<open>max_mv\<close>, and
  the inverse conversion raises \<open>RangeError\<close>.
\<close>

theorem TypeK_round_trip_rejected:
  "min_degrees TypeK < 1369.98 \<and> 1369.98 < max_degrees TypeK \<and>
   degs_to_mv TypeK 1369.98 = Inr 54.81832 \<and>
   54.81832 < millivolts TypeK ! (length (millivolts TypeK) - 1) \<and>
   mv_to_degs TypeK 54.81832 = Inl (out_of_range 54.81832)"
proof -
  have "from_x (interp TypeK) 1369.98 = Inr 54.81832"
    using TypeK_from_x_value [of "1369.98"] by (simp add: TypeK_millivolts_def)
  then have a: "degs_to_mv TypeK 1369.98 = Inr 54.81832"
    by (simp add: degs_to_mv_def TypeK_bounds)
  have "TypeK_millivolts ! 164 = 54.819" by (simp add: TypeK_millivolts_def)
  then have b: "54.81832 < millivolts TypeK ! (length (millivolts TypeK) - 1)"
    by (simp add: TypeK_bounds TypeK_millivolts_length)
  have c: "mv_to_degs TypeK 54.81832 = Inl (out_of_range 54.81832)"
    by (simp add: mv_to_degs_def TypeK_bounds)
  from a b c show ?thesis by (simp add: TypeK_bounds)
qed

end
